theory Spec2Isabelle
  imports Main "HOL-Library.Char_ord" "HOL-Library.List_Lexorder"
begin

section \<open>The user-list timeline endpoint (notes/user-list-timeline.ts)\<close>

text \<open>
  The endpoint reads six tables through TypeORM repositories and a query builder.
  The model keeps the tables as lists of rows, every repository call as a function
  into \<open>error + rows\<close>, and every query built by the endpoint as a value of a small
  SQL datatype that is evaluated over the rows with SQL's three-valued logic.

  Identifiers are strings. Both \<open>ORDER BY note.id DESC\<close> and the comparator
  \<open>b.id.localeCompare(a.id)\<close> are read as the lexicographic order on characters,
  which is what they are on the alphabet of generated ids.
\<close>

subsection \<open>Rows\<close>

text \<open>
  A row of \<open>note\<close>, with the \<open>isSuspended\<close> column of the \<open>user\<close> row that
  \<open>innerJoinAndSelect('note.user', 'user')\<close> attaches to it. The left joins on
  reply and renote add columns only and are left out.

  Fields carry the names of the columns. Where a name is taken or shared, it has a
  prefix: \<open>note_id\<close> and \<open>note_text\<close> are \<open>note.id\<close> and \<open>note.text\<close>,
  \<open>ulm_userId\<close> is the \<open>userId\<close> of a membership, \<open>rm_muterId\<close> and
  \<open>rm_muteeId\<close> are the columns of a renote muting, \<open>list_id\<close> and
  \<open>list_userId\<close> the columns of a user list.
\<close>

record mi_note =
  note_id :: string
  userId :: string
  channelId :: "string option"
  replyId :: "string option"
  replyUserId :: "string option"
  renoteId :: "string option"
  note_text :: "string option"
  fileIds :: "string list"
  visibility :: string
  user_isSuspended :: bool

record membership =
  userListId :: string
  ulm_userId :: string
  withReplies :: bool

record muting =
  muterId :: string
  muteeId :: string

record blocking =
  blockerId :: string
  blockeeId :: string

record renote_muting =
  rm_muterId :: string
  rm_muteeId :: string

record user_list =
  list_id :: string
  list_userId :: string

datatype error = NoSuchList | QueryFailed

subsection \<open>Queries\<close>

datatype column =
    Note_id | Note_userId | Note_channelId | Note_replyId | Note_replyUserId
  | Note_renoteId | Note_text | Note_visibility | Ulm_userListId | Ulm_userId

text \<open>
  The conditions the endpoint writes. \<open>Brackets\<close> is \<open>new Brackets(qb => ...)\<close>
  whose members are joined by \<open>where\<close>/\<open>orWhere\<close>: a disjunction.
  \<open>VisibilityQuery me\<close> is what \<open>queryService.generateVisibilityQuery(query, me)\<close>
  adds; QueryService is not part of this file, so its meaning is a parameter.
\<close>

datatype cond =
    IsNull column
  | IsNotNull column
  | EqColumn column column
  | Eq column string
  | NotEq column string
  | In column "string list"
  | NotIn column "string list"
  | Less column string
  | Greater column string
  | FileIdsNotEmpty
  | UserNotSuspended
  | Brackets "cond list"
  | VisibilityQuery string

record query =
  joinUlm :: bool
  wheres :: "cond list"
  row_limit :: nat

type_synonym row = "mi_note \<times> membership option"

fun column_value :: "column \<Rightarrow> row \<Rightarrow> string option" where
  "column_value Note_id (n, u) = Some (note_id n)"
| "column_value Note_userId (n, u) = Some (userId n)"
| "column_value Note_channelId (n, u) = channelId n"
| "column_value Note_replyId (n, u) = replyId n"
| "column_value Note_replyUserId (n, u) = replyUserId n"
| "column_value Note_renoteId (n, u) = renoteId n"
| "column_value Note_text (n, u) = note_text n"
| "column_value Note_visibility (n, u) = Some (visibility n)"
| "column_value Ulm_userListId (n, u) = map_option userListId u"
| "column_value Ulm_userId (n, u) = map_option ulm_userId u"

text \<open>SQL's OR over truth values, \<open>None\<close> being NULL (unknown).\<close>

fun or3 :: "bool option list \<Rightarrow> bool option" where
  "or3 [] = Some False"
| "or3 (v # vs) =
     (if v = Some True then Some True
      else (case or3 vs of
              Some True \<Rightarrow> Some True
            | None \<Rightarrow> None
            | Some False \<Rightarrow> (if v = None then None else Some False)))"

fun holds :: "(string \<Rightarrow> mi_note \<Rightarrow> bool) \<Rightarrow> cond \<Rightarrow> row \<Rightarrow> bool option" where
  "holds vis (IsNull c) r = Some (column_value c r = None)"
| "holds vis (IsNotNull c) r = Some (column_value c r \<noteq> None)"
| "holds vis (EqColumn a b) r =
     (case column_value a r of
        None \<Rightarrow> None
      | Some x \<Rightarrow> (case column_value b r of None \<Rightarrow> None | Some y \<Rightarrow> Some (x = y)))"
| "holds vis (Eq c v) r = map_option (\<lambda>x. x = v) (column_value c r)"
| "holds vis (NotEq c v) r = map_option (\<lambda>x. x \<noteq> v) (column_value c r)"
| "holds vis (In c vs) r = map_option (\<lambda>x. x \<in> set vs) (column_value c r)"
| "holds vis (NotIn c vs) r = map_option (\<lambda>x. x \<notin> set vs) (column_value c r)"
| "holds vis (Less c v) r = map_option (\<lambda>x. x < v) (column_value c r)"
| "holds vis (Greater c v) r = map_option (\<lambda>x. v < x) (column_value c r)"
| "holds vis FileIdsNotEmpty r = Some (fileIds (fst r) \<noteq> [])"
| "holds vis UserNotSuspended r = Some (\<not> user_isSuspended (fst r))"
| "holds vis (Brackets cs) r = or3 (map (\<lambda>c. holds vis c r) cs)"
| "holds vis (VisibilityQuery me) r = Some (vis me (fst r))"

text \<open>A row is selected when every \<open>andWhere\<close> condition is true (not false, not NULL).\<close>

definition selected :: "(string \<Rightarrow> mi_note \<Rightarrow> bool) \<Rightarrow> cond list \<Rightarrow> row \<Rightarrow> bool" where
  "selected vis cs r = list_all (\<lambda>c. holds vis c r = Some True) cs"

text \<open>Descending by id, stable: \<open>ORDER BY note.id DESC\<close> and the JavaScript sort.\<close>

definition sort_desc :: "mi_note list \<Rightarrow> mi_note list" where
  "sort_desc ns = rev (sort_key note_id (rev ns))"

text \<open>
  \<open>getMany\<close> turns the raw rows into entities, one per primary key, in the order of
  first appearance.
\<close>

fun group_by_id :: "mi_note list \<Rightarrow> mi_note list" where
  "group_by_id [] = []"
| "group_by_id (n # ns) = n # group_by_id (filter (\<lambda>m. note_id m \<noteq> note_id n) ns)"

subsection \<open>The database and the collaborators\<close>

text \<open>
  The tables, the faults (a repository call that throws: a missing table, a timeout, a
  lost connection) and the visibility predicate of QueryService. A fault is a flag per
  repository; for the query builder it depends on the query, so that one batch can
  throw and the next succeed.
\<close>

record world =
  note_tbl :: "mi_note list"
  user_list_membership :: "membership list"
  muting_tbl :: "muting list"
  blocking_tbl :: "blocking list"
  renote_muting_tbl :: "renote_muting list"
  user_list_tbl :: "user_list list"
  memberships_fail :: bool
  mutings_fail :: bool
  blockings_fail :: bool
  renoteMutings_fail :: bool
  userLists_fail :: bool
  notes_fail :: "query \<Rightarrow> bool"
  visible :: "string \<Rightarrow> mi_note \<Rightarrow> bool"

definition raw_rows :: "world \<Rightarrow> query \<Rightarrow> row list" where
  "raw_rows W q =
     (if joinUlm q
      then concat (map (\<lambda>n. map (\<lambda>u. (n, Some u))
                 (filter (\<lambda>u. ulm_userId u = userId n) (user_list_membership W))) (note_tbl W))
      else map (\<lambda>n. (n, None)) (note_tbl W))"

definition getMany :: "world \<Rightarrow> query \<Rightarrow> error + mi_note list" where
  "getMany W q =
     (if notes_fail W q then Inl QueryFailed
      else Inr (group_by_id (take (row_limit q)
             (sort_desc (map fst (filter (selected (visible W) (wheres q)) (raw_rows W q)))))))"

subsection \<open>Repository calls\<close>

text \<open>
  \<open>repository.find({ where: ... })\<close>: the matching rows, or the exception. The
  \<open>cache\<close> option of the source is not modelled: a lookup returns the current rows.
\<close>

definition memberships_find :: "world \<Rightarrow> string \<Rightarrow> error + membership list" where
  "memberships_find W listId =
     (if memberships_fail W then Inl QueryFailed
      else Inr (filter (\<lambda>m. userListId m = listId) (user_list_membership W)))"

definition mutings_find :: "world \<Rightarrow> string \<Rightarrow> error + muting list" where
  "mutings_find W uid =
     (if mutings_fail W then Inl QueryFailed
      else Inr (filter (\<lambda>r. muterId r = uid) (muting_tbl W)))"

definition blockings_find :: "world \<Rightarrow> string \<Rightarrow> error + blocking list" where
  "blockings_find W uid =
     (if blockings_fail W then Inl QueryFailed
      else Inr (filter (\<lambda>r. blockerId r = uid) (blocking_tbl W)))"

definition renoteMutings_find :: "world \<Rightarrow> string \<Rightarrow> error + renote_muting list" where
  "renoteMutings_find W uid =
     (if renoteMutings_fail W then Inl QueryFailed
      else Inr (filter (\<lambda>r. rm_muterId r = uid) (renote_muting_tbl W)))"

definition userLists_findOneBy :: "world \<Rightarrow> string \<Rightarrow> string \<Rightarrow> error + user_list option" where
  "userLists_findOneBy W lid uid =
     (if userLists_fail W then Inl QueryFailed
      else Inr (find (\<lambda>l. list_id l = lid \<and> list_userId l = uid) (user_list_tbl W)))"

subsection \<open>The relation lookups\<close>

definition getMutedUsers :: "world \<Rightarrow> string \<Rightarrow> error + string list" where
  "getMutedUsers W uid =
     (case mutings_find W uid of
        Inl e \<Rightarrow> Inl e
      | Inr result \<Rightarrow> Inr (map muteeId result))"

definition getBlockedUsers :: "world \<Rightarrow> string \<Rightarrow> error + string list" where
  "getBlockedUsers W uid =
     (case blockings_find W uid of
        Inl e \<Rightarrow> Inl e
      | Inr result \<Rightarrow> Inr (map blockeeId result))"

text \<open>The only lookup with a \<open>try\<close>/\<open>catch\<close> of its own: any exception gives \<open>[]\<close>.\<close>

definition getRenoteMutedUsers :: "world \<Rightarrow> string \<Rightarrow> error + string list" where
  "getRenoteMutedUsers W uid =
     (case renoteMutings_find W uid of
        Inr result \<Rightarrow> Inr (map rm_muteeId result)
      | Inl e \<Rightarrow> Inr [])"

subsection \<open>The batch query\<close>

record params =
  untilId :: "string option"
  sinceId :: "string option"
  limit :: "nat option"
  includeMyRenotes :: "bool option"
  includeRenotedMyNotes :: "bool option"
  includeLocalRenotes :: "bool option"
  withFiles :: "bool option"
  withRenotes :: "bool option"

text \<open>\<open>if (ps.untilId)\<close>: a string is truthy when it is present and not empty.\<close>

fun truthy :: "string option \<Rightarrow> bool" where
  "truthy None = False"
| "truthy (Some s) = (s \<noteq> [])"

text \<open>\<open>Array.from(new Set(xs))\<close>: the first occurrence of each element, in order.\<close>

definition set_to_array :: "string list \<Rightarrow> string list" where
  "set_to_array xs = rev (remdups (rev xs))"

text \<open>Lines 297 to 315 of the source: the reply filter of a batch.\<close>

definition replyFilter :: "membership list \<Rightarrow> string \<Rightarrow> cond" where
  "replyFilter members me =
     (let membersWithReplies = set_to_array (map ulm_userId (filter withReplies members))
      in if membersWithReplies \<noteq> []
         then Brackets [IsNull Note_replyId,
                        EqColumn Note_replyUserId Note_userId,
                        Eq Note_replyUserId me,
                        In Note_userId membersWithReplies]
         else Brackets [IsNull Note_replyId,
                        EqColumn Note_replyUserId Note_userId,
                        Eq Note_replyUserId me])"

text \<open>The query \<open>getNotesForUsers\<close> builds, condition by condition in the source's order.\<close>

definition notesForUsersQuery ::
  "string list \<Rightarrow> membership list \<Rightarrow> params \<Rightarrow> string \<Rightarrow> string list \<Rightarrow> query" where
  "notesForUsersQuery userIds members ps me renoteMutedUserIds =
     \<lparr>joinUlm = False,
      wheres =
        [In Note_userId userIds, IsNull Note_channelId, UserNotSuspended]
        @ [replyFilter members me]
        @ [VisibilityQuery me]
        @ (if renoteMutedUserIds \<noteq> []
           then [Brackets [IsNull Note_renoteId, IsNotNull Note_text,
                           NotIn Note_userId renoteMutedUserIds]]
           else [])
        @ (if includeMyRenotes ps = Some False
           then [Brackets [NotEq Note_userId me, IsNull Note_renoteId,
                           IsNotNull Note_text, FileIdsNotEmpty]]
           else [])
        @ (if withRenotes ps = Some False
           then [Brackets [IsNull Note_renoteId, IsNotNull Note_text, FileIdsNotEmpty]]
           else [])
        @ (if withFiles ps = Some True then [FileIdsNotEmpty] else [])
        @ (if truthy (untilId ps) then [Less Note_id (the (untilId ps))] else [])
        @ (if truthy (sinceId ps) then [Greater Note_id (the (sinceId ps))] else []),
      row_limit = 50\<rparr>"

definition getNotesForUsers ::
  "world \<Rightarrow> string list \<Rightarrow> membership list \<Rightarrow> params \<Rightarrow> string \<Rightarrow> string list
   \<Rightarrow> error + mi_note list" where
  "getNotesForUsers W userIds members ps me renoteMutedUserIds =
     getMany W (notesForUsersQuery userIds members ps me renoteMutedUserIds)"

subsection \<open>The fallback query\<close>

text \<open>\<open>ps.limit ?? 10\<close>.\<close>

definition limit_or_10 :: "params \<Rightarrow> nat" where
  "limit_or_10 ps = (case limit ps of None \<Rightarrow> 10 | Some l \<Rightarrow> l)"

definition fallbackQuery :: "user_list \<Rightarrow> params \<Rightarrow> query" where
  "fallbackQuery list ps =
     \<lparr>joinUlm = True,
      wheres =
        [Eq Ulm_userListId (list_id list), IsNull Note_channelId, UserNotSuspended,
         In Note_visibility [''public'', ''home'']]
        @ (if truthy (untilId ps) then [Less Note_id (the (untilId ps))] else [])
        @ (if truthy (sinceId ps) then [Greater Note_id (the (sinceId ps))] else []),
      row_limit = limit_or_10 ps\<rparr>"

definition getFallbackTimeline :: "world \<Rightarrow> user_list \<Rightarrow> params \<Rightarrow> string \<Rightarrow> error + mi_note list" where
  "getFallbackTimeline W list ps me = getMany W (fallbackQuery list ps)"

subsection \<open>The optimized path\<close>

definition batchSize :: nat where
  "batchSize = 15"

text \<open>\<open>xs.slice(a, b)\<close> for \<open>0 \<le> a \<le> b\<close>.\<close>

definition slice :: "nat \<Rightarrow> nat \<Rightarrow> 'a list \<Rightarrow> 'a list" where
  "slice a b xs = take (b - a) (drop a xs)"

text \<open>
  The state of the \<open>for\<close> loop: the accumulator \<open>allNotes\<close>, and the batch queries
  issued so far, each with what it returned or threw.
\<close>

record loop_state =
  allNotes :: "mi_note list"
  issued :: "(membership list \<times> (error + mi_note list)) list"

function batch_loop ::
  "world \<Rightarrow> params \<Rightarrow> string \<Rightarrow> string list \<Rightarrow> membership list \<Rightarrow> nat \<Rightarrow> loop_state
   \<Rightarrow> loop_state" where
  "batch_loop W ps me renoteMutedUserIds validMembers i st =
     (if i < length validMembers then
        (let batch = slice i (i + batchSize) validMembers;
             batchUserIds = map ulm_userId batch
         in case getNotesForUsers W batchUserIds batch ps me renoteMutedUserIds of
              Inr batchNotes \<Rightarrow>
                (let st' = \<lparr>allNotes = allNotes st @ batchNotes,
                            issued = issued st @ [(batch, Inr batchNotes)]\<rparr>
                 in if length (allNotes st') \<ge> limit_or_10 ps * 3 then st'
                    else batch_loop W ps me renoteMutedUserIds validMembers (i + batchSize) st')
            | Inl e \<Rightarrow>
                batch_loop W ps me renoteMutedUserIds validMembers (i + batchSize)
                  \<lparr>allNotes = allNotes st, issued = issued st @ [(batch, Inl e)]\<rparr>)
      else st)"
  by pat_completeness auto
termination
  by (relation "measure (\<lambda>(W, ps, me, rm, validMembers, i, st). length validMembers - i)")
     (auto simp: batchSize_def)

declare batch_loop.simps [simp del]

text \<open>
  \<open>Promise.all\<close> of the three lookups: it rejects when one of them rejects, and
  \<open>getRenoteMutedUsers\<close> never does.
\<close>

definition getRelations :: "world \<Rightarrow> string \<Rightarrow> error + (string list \<times> string list \<times> string list)" where
  "getRelations W uid =
     (case getMutedUsers W uid of
        Inl e \<Rightarrow> Inl e
      | Inr mutedUserIds \<Rightarrow>
          (case getBlockedUsers W uid of
             Inl e \<Rightarrow> Inl e
           | Inr blockedUserIds \<Rightarrow>
               (case getRenoteMutedUsers W uid of
                  Inl e \<Rightarrow> Inl e
                | Inr renoteMutedUserIds \<Rightarrow>
                    Inr (mutedUserIds, blockedUserIds, renoteMutedUserIds))))"

definition validMembers_of :: "string list \<Rightarrow> string list \<Rightarrow> membership list \<Rightarrow> membership list" where
  "validMembers_of mutedUserIds blockedUserIds listMembers =
     filter (\<lambda>member. ulm_userId member \<notin> set (mutedUserIds @ blockedUserIds)) listMembers"

text \<open>
  The optimized path up to the end of its loop: nothing to run when the list or the
  filtered list is empty, the exception of a lookup, or the final loop state.
\<close>

definition optimizedRun :: "world \<Rightarrow> user_list \<Rightarrow> params \<Rightarrow> string \<Rightarrow> error + loop_state" where
  "optimizedRun W list ps me =
     (case memberships_find W (list_id list) of
        Inl e \<Rightarrow> Inl e
      | Inr listMembers \<Rightarrow>
          if listMembers = [] then Inr \<lparr>allNotes = [], issued = []\<rparr>
          else
            (case getRelations W me of
               Inl e \<Rightarrow> Inl e
             | Inr (mutedUserIds, blockedUserIds, renoteMutedUserIds) \<Rightarrow>
                 (let validMembers = validMembers_of mutedUserIds blockedUserIds listMembers
                  in if validMembers = [] then Inr \<lparr>allNotes = [], issued = []\<rparr>
                     else Inr (batch_loop W ps me renoteMutedUserIds validMembers 0
                                 \<lparr>allNotes = [], issued = []\<rparr>))))"

definition getOptimizedTimeline :: "world \<Rightarrow> user_list \<Rightarrow> params \<Rightarrow> string \<Rightarrow> error + mi_note list" where
  "getOptimizedTimeline W list ps me =
     (case optimizedRun W list ps me of
        Inl e \<Rightarrow> Inl e
      | Inr st \<Rightarrow> Inr (slice 0 (limit_or_10 ps) (sort_desc (allNotes st))))"

subsection \<open>The batches and the log of the loop\<close>






subsection \<open>The orchestrator\<close>

definition getFromDb :: "world \<Rightarrow> user_list \<Rightarrow> params \<Rightarrow> string \<Rightarrow> error + mi_note list" where
  "getFromDb W list ps me =
     (case getOptimizedTimeline W list ps me of
        Inr timeline \<Rightarrow> Inr timeline
      | Inl e \<Rightarrow> getFallbackTimeline W list ps me)"

subsection \<open>The endpoint handler\<close>

text \<open>The request after schema validation: \<open>limit\<close> and the flags have their defaults.\<close>

record request =
  ps_listId :: string
  ps_limit :: nat
  ps_sinceId :: "string option"
  ps_untilId :: "string option"
  ps_sinceDate :: "int option"
  ps_untilDate :: "int option"
  ps_allowPartial :: bool
  ps_includeMyRenotes :: bool
  ps_includeRenotedMyNotes :: bool
  ps_includeLocalRenotes :: bool
  ps_withRenotes :: bool
  ps_withFiles :: bool

record fanout_args =
  fa_untilId :: "string option"
  fa_sinceId :: "string option"
  fa_limit :: nat
  fa_allowPartial :: bool
  fa_me :: string
  fa_useDbFallback :: bool
  fa_redisTimelines :: "string list"
  fa_alwaysIncludeMyNotes :: bool
  fa_excludePureRenotes :: bool
  fa_dbFallback :: "string option \<Rightarrow> string option \<Rightarrow> nat \<Rightarrow> error + mi_note list"

text \<open>
  The collaborators that are not part of this file: the id service, the entity service
  that packs notes, the fanout timeline service, and the two server settings.
\<close>

record 'p services =
  idService_gen :: "int \<Rightarrow> string"
  packMany :: "mi_note list \<Rightarrow> string \<Rightarrow> error + 'p list"
  fanout_timeline :: "fanout_args \<Rightarrow> error + 'p list"
  enableFanoutTimeline :: bool
  enableFanoutTimelineDbFallback :: bool

text \<open>
  \<open>ps.untilId ?? (ps.untilDate ? this.idService.gen(ps.untilDate) : null)\<close>: \<open>??\<close>
  keeps every id that is present, and a date is truthy when it is not \<open>0\<close>.
\<close>

definition cursorId :: "(int \<Rightarrow> string) \<Rightarrow> string option \<Rightarrow> int option \<Rightarrow> string option" where
  "cursorId gen idParam dateParam =
     (case idParam of
        Some i \<Rightarrow> Some i
      | None \<Rightarrow>
          (case dateParam of
             None \<Rightarrow> None
           | Some d \<Rightarrow> if d \<noteq> 0 then Some (gen d) else None))"

definition dbParams :: "request \<Rightarrow> string option \<Rightarrow> string option \<Rightarrow> nat \<Rightarrow> params" where
  "dbParams ps u s l =
     \<lparr>untilId = u, sinceId = s, limit = Some l,
      includeMyRenotes = Some (ps_includeMyRenotes ps),
      includeRenotedMyNotes = Some (ps_includeRenotedMyNotes ps),
      includeLocalRenotes = Some (ps_includeLocalRenotes ps),
      withFiles = Some (ps_withFiles ps),
      withRenotes = Some (ps_withRenotes ps)\<rparr>"

text \<open>
  The callback given to \<open>super\<close>. \<open>activeUsersChart.read(me)\<close> records telemetry and
  returns nothing; it is left out.
\<close>

definition handler :: "'p services \<Rightarrow> world \<Rightarrow> request \<Rightarrow> string \<Rightarrow> error + 'p list" where
  "handler S W ps me =
     (let untilId' = cursorId (idService_gen S) (ps_untilId ps) (ps_untilDate ps);
          sinceId' = cursorId (idService_gen S) (ps_sinceId ps) (ps_sinceDate ps)
      in case userLists_findOneBy W (ps_listId ps) me of
           Inl e \<Rightarrow> Inl e
         | Inr None \<Rightarrow> Inl NoSuchList
         | Inr (Some list) \<Rightarrow>
             if \<not> enableFanoutTimeline S then
               (case getFromDb W list (dbParams ps untilId' sinceId' (ps_limit ps)) me of
                  Inl e \<Rightarrow> Inl e
                | Inr timeline \<Rightarrow> packMany S timeline me)
             else
               fanout_timeline S
                 \<lparr>fa_untilId = untilId', fa_sinceId = sinceId', fa_limit = ps_limit ps,
                  fa_allowPartial = ps_allowPartial ps, fa_me = me,
                  fa_useDbFallback = enableFanoutTimelineDbFallback S,
                  fa_redisTimelines =
                    (if ps_withFiles ps then [''userListTimelineWithFiles:'' @ list_id list]
                     else [''userListTimeline:'' @ list_id list]),
                  fa_alwaysIncludeMyNotes = True,
                  fa_excludePureRenotes = (\<not> ps_withRenotes ps),
                  fa_dbFallback = (\<lambda>u s l. getFromDb W list (dbParams ps u s l) me)\<rparr>)"

subsection \<open>Example databases\<close>

text \<open>
  Concrete inputs at which the theorems below are evaluated. \<open>reply_world\<close> is the
  scenario of two members, one of them with replies.
\<close>

definition post :: "string \<Rightarrow> string \<Rightarrow> mi_note" where
  "post i u =
     \<lparr>note_id = i, userId = u, channelId = None, replyId = None, replyUserId = None,
      renoteId = None, note_text = Some ''hello'', fileIds = [], visibility = ''public'',
      user_isSuspended = False\<rparr>"

definition empty_world :: world where
  "empty_world =
     \<lparr>note_tbl = [], user_list_membership = [], muting_tbl = [], blocking_tbl = [],
      renote_muting_tbl = [], user_list_tbl = [],
      memberships_fail = False, mutings_fail = False, blockings_fail = False,
      renoteMutings_fail = False, userLists_fail = False,
      notes_fail = (\<lambda>q. False), visible = (\<lambda>me n. True)\<rparr>"

definition no_params :: params where
  "no_params =
     \<lparr>untilId = None, sinceId = None, limit = None, includeMyRenotes = None,
      includeRenotedMyNotes = None, includeLocalRenotes = None, withFiles = None,
      withRenotes = None\<rparr>"

definition list1 :: user_list where
  "list1 = \<lparr>list_id = ''L'', list_userId = ''me''\<rparr>"

definition reply_members :: "membership list" where
  "reply_members =
     [\<lparr>userListId = ''L'', ulm_userId = ''A'', withReplies = False\<rparr>,
      \<lparr>userListId = ''L'', ulm_userId = ''B'', withReplies = True\<rparr>]"

definition reply_to_X :: mi_note where
  "reply_to_X = (post ''n4'' ''A'')\<lparr>replyId := Some ''x0'', replyUserId := Some ''X''\<rparr>"

definition reply_to_A :: mi_note where
  "reply_to_A = (post ''n5'' ''B'')\<lparr>replyId := Some ''n3'', replyUserId := Some ''A''\<rparr>"

definition reply_world :: world where
  "reply_world = empty_world
     \<lparr>note_tbl :=
        [post ''n1'' ''A'', post ''n2'' ''B'', post ''n3'' ''A'', reply_to_X, reply_to_A,
         post ''n6'' ''A'', post ''n7'' ''B'', post ''n8'' ''A''],
      user_list_membership := reply_members,
      user_list_tbl := [list1]\<rparr>"

text \<open>The caller mutes B; in \<open>mute_fallback_world\<close> the membership lookup throws.\<close>

definition mute_world :: world where
  "mute_world = reply_world\<lparr>muting_tbl := [\<lparr>muterId = ''me'', muteeId = ''B''\<rparr>]\<rparr>"

definition mute_fallback_world :: world where
  "mute_fallback_world = mute_world\<lparr>memberships_fail := True\<rparr>"

text \<open>Every lookup and every query throws.\<close>

definition down_world :: world where
  "down_world = reply_world
     \<lparr>memberships_fail := True, mutings_fail := True, blockings_fail := True,
      renoteMutings_fail := True, userLists_fail := True, notes_fail := (\<lambda>q. True)\<rparr>"

text \<open>The renote-mute lookup throws; the mute lookup throws.\<close>

definition renote_mute_down_world :: world where
  "renote_mute_down_world = reply_world
     \<lparr>renote_muting_tbl := [\<lparr>rm_muterId = ''me'', rm_muteeId = ''A''\<rparr>],
      renoteMutings_fail := True\<rparr>"

definition mute_down_world :: world where
  "mute_down_world = reply_world\<lparr>mutings_fail := True\<rparr>"

text \<open>A renote with an attachment and no text, and a renote with neither.\<close>

definition file_renote :: mi_note where
  "file_renote = (post ''r2'' ''A'')
     \<lparr>renoteId := Some ''n0'', note_text := None, fileIds := [''f1'']\<rparr>"

definition bare_renote :: mi_note where
  "bare_renote = (post ''r3'' ''A'')\<lparr>renoteId := Some ''n0'', note_text := None\<rparr>"

definition renote_world :: world where
  "renote_world = empty_world
     \<lparr>note_tbl := [post ''r1'' ''A'', file_renote, bare_renote],
      user_list_membership := reply_members,
      user_list_tbl := [list1]\<rparr>"

text \<open>Rows the fallback has to leave out, with the membership lookup throwing.\<close>

definition home_post :: mi_note where
  "home_post = (post ''nd'' ''B'')\<lparr>visibility := ''home''\<rparr>"

definition fallback_world :: world where
  "fallback_world = reply_world
     \<lparr>note_tbl := note_tbl reply_world @
        [(post ''n9'' ''A'')\<lparr>visibility := ''followers''\<rparr>,
         post ''na'' ''C'',
         (post ''nb'' ''A'')\<lparr>channelId := Some ''c1''\<rparr>,
         (post ''nc'' ''B'')\<lparr>user_isSuspended := True\<rparr>,
         home_post],
      memberships_fail := True\<rparr>"

definition fallback_params :: params where
  "fallback_params = no_params\<lparr>untilId := Some ''ne'', sinceId := Some ''n6'', limit := Some 2\<rparr>"

text \<open>
  Twenty members. In \<open>quiet_world\<close> each has one post, so the first batch of fifteen
  yields fifteen posts; in \<open>busy_world\<close> each has two, so it yields thirty.
\<close>

definition twenty :: "string list" where
  "twenty =
     [''u01'', ''u02'', ''u03'', ''u04'', ''u05'', ''u06'', ''u07'', ''u08'', ''u09'', ''u10'',
      ''u11'', ''u12'', ''u13'', ''u14'', ''u15'', ''u16'', ''u17'', ''u18'', ''u19'', ''u20'']"

definition twenty_members :: "membership list" where
  "twenty_members =
     map (\<lambda>u. \<lparr>userListId = ''L'', ulm_userId = u, withReplies = False\<rparr>) twenty"

definition quiet_world :: world where
  "quiet_world = empty_world
     \<lparr>note_tbl := map (\<lambda>u. post (''p'' @ u) u) twenty,
      user_list_membership := twenty_members,
      user_list_tbl := [list1]\<rparr>"


definition limit_10 :: params where
  "limit_10 = no_params\<lparr>limit := Some 10\<rparr>"

text \<open>Collaborators that pack a note as its id; the fanout service only calls back.\<close>

definition id_services :: "string services" where
  "id_services =
     \<lparr>idService_gen = (\<lambda>d. ''n3''),
      packMany = (\<lambda>ns me. Inr (map note_id ns)),
      fanout_timeline = (\<lambda>a. map_sum id (map note_id)
         (fa_dbFallback a (fa_untilId a) (fa_sinceId a) (fa_limit a))),
      enableFanoutTimeline = False,
      enableFanoutTimelineDbFallback = True\<rparr>"

definition request1 :: request where
  "request1 =
     \<lparr>ps_listId = ''L'', ps_limit = 10, ps_sinceId = None, ps_untilId = None,
      ps_sinceDate = None, ps_untilDate = None, ps_allowPartial = False,
      ps_includeMyRenotes = True, ps_includeRenotedMyNotes = True,
      ps_includeLocalRenotes = True, ps_withRenotes = True, ps_withFiles = False\<rparr>"

text \<open>
  A request with an id and a date on both sides; the id service turns the date into
  \<open>n3\<close>. \<open>fanout_services\<close> are the same collaborators with the fanout timeline
  enabled.
\<close>

definition both_cursors :: request where
  "both_cursors = request1
     \<lparr>ps_sinceId := Some ''n2'', ps_untilId := Some ''n6'',
      ps_sinceDate := Some 5, ps_untilDate := Some 5\<rparr>"

definition fanout_services :: "string services" where
  "fanout_services = id_services\<lparr>enableFanoutTimeline := True\<rparr>"

section \<open>Properties\<close>

subsection \<open>Three-valued conditions, sorting and grouping\<close>

lemma or3_True: "or3 vs = Some True \<longleftrightarrow> Some True \<in> set vs"
  by (induction vs) (auto split: option.splits bool.splits)

lemma selected_iff: "selected vis cs r \<longleftrightarrow> (\<forall>c\<in>set cs. holds vis c r = Some True)"
  by (simp add: selected_def list_all_iff)

lemma set_group_by_id: "set (group_by_id ns) \<subseteq> set ns"
  by (induction ns rule: group_by_id.induct) auto

lemma length_group_by_id: "length (group_by_id ns) \<le> length ns"
proof (induction ns rule: group_by_id.induct)
  case 1
  show ?case by simp
next
  case (2 n ns)
  have "length (filter (\<lambda>m. note_id m \<noteq> note_id n) ns) \<le> length ns"
    by (rule length_filter_le)
  with 2 show ?case by (simp add: le_SucI order_trans)
qed

lemma distinct_group_by_id: "distinct (map note_id (group_by_id ns))"
proof (induction ns rule: group_by_id.induct)
  case 1
  show ?case by simp
next
  case (2 n ns)
  have "note_id n \<notin> note_id ` set (group_by_id (filter (\<lambda>m. note_id m \<noteq> note_id n) ns))"
    using set_group_by_id [of "filter (\<lambda>m. note_id m \<noteq> note_id n) ns"] by auto
  with 2 show ?case by simp
qed

lemma sorted_wrt_group_by_id: "sorted_wrt R ns \<Longrightarrow> sorted_wrt R (group_by_id ns)"
proof (induction ns rule: group_by_id.induct)
  case 1
  show ?case by simp
next
  case (2 n ns)
  from 2(2) have "sorted_wrt R (filter (\<lambda>m. note_id m \<noteq> note_id n) ns)"
    by (simp add: sorted_wrt_filter)
  with 2 show ?case
    using set_group_by_id [of "filter (\<lambda>m. note_id m \<noteq> note_id n) ns"] by auto
qed

lemma set_sort_desc: "set (sort_desc ns) = set ns"
  by (simp add: sort_desc_def)

lemma sorted_sort_desc: "sorted_wrt (\<lambda>a b. note_id b \<le> note_id a) (sort_desc ns)"
proof -
  have "sorted (map note_id (sort_key note_id (rev ns)))"
    by (rule sorted_sort_key)
  then have "sorted_wrt (\<lambda>a b. note_id a \<le> note_id b) (sort_key note_id (rev ns))"
    by (simp add: sorted_map)
  then show ?thesis
    by (simp add: sort_desc_def sorted_wrt_rev)
qed

lemma distinct_sort_desc: "distinct (map note_id (sort_desc ns)) = distinct (map note_id ns)"
  by (simp add: sort_desc_def distinct_map)

lemma strictly_desc:
  "sorted_wrt (\<lambda>a b. note_id b \<le> note_id a) ns \<Longrightarrow> distinct (map note_id ns)
   \<Longrightarrow> sorted_wrt (\<lambda>a b. note_id b < note_id a) ns"
proof (induction ns)
  case Nil
  show ?case by simp
next
  case (Cons a ns)
  have "note_id b < note_id a" if "b \<in> set ns" for b
  proof -
    from Cons.prems have "note_id a \<notin> note_id ` set ns"
      by simp
    with that have "note_id b \<noteq> note_id a"
      by (metis imageI)
    moreover from Cons.prems that have "note_id b \<le> note_id a"
      by simp
    ultimately show ?thesis by simp
  qed
  with Cons show ?case by simp
qed

subsection \<open>What \<open>getMany\<close> returns\<close>

lemma raw_rows_note: "(n, u) \<in> set (raw_rows W q) \<Longrightarrow> n \<in> set (note_tbl W)"
  by (auto simp: raw_rows_def split: if_splits)

lemma raw_rows_ulm:
  "joinUlm q \<Longrightarrow> (n, u) \<in> set (raw_rows W q)
   \<Longrightarrow> \<exists>m. u = Some m \<and> m \<in> set (user_list_membership W) \<and> ulm_userId m = userId n"
  by (auto simp: raw_rows_def)

lemma raw_rows_plain: "\<not> joinUlm q \<Longrightarrow> (n, u) \<in> set (raw_rows W q) \<Longrightarrow> u = None"
  by (auto simp: raw_rows_def)

lemma getMany_member:
  assumes "getMany W q = Inr ns" and "n \<in> set ns"
  shows "\<exists>u. (n, u) \<in> set (raw_rows W q) \<and> selected (visible W) (wheres q) (n, u)"
proof -
  from assms(1) have ns: "ns = group_by_id (take (row_limit q)
      (sort_desc (map fst (filter (selected (visible W) (wheres q)) (raw_rows W q)))))"
    by (simp add: getMany_def split: if_splits)
  from assms(2) have "n \<in> set (take (row_limit q)
      (sort_desc (map fst (filter (selected (visible W) (wheres q)) (raw_rows W q)))))"
    unfolding ns using set_group_by_id by blast
  then have "n \<in> set (sort_desc (map fst (filter (selected (visible W) (wheres q)) (raw_rows W q))))"
    by (rule in_set_takeD)
  then have "n \<in> fst ` set (filter (selected (visible W) (wheres q)) (raw_rows W q))"
    by (simp add: set_sort_desc)
  then show ?thesis by auto
qed

lemma getMany_sorted:
  assumes "getMany W q = Inr ns"
  shows "sorted_wrt (\<lambda>a b. note_id b < note_id a) ns"
proof -
  let ?rows = "sort_desc (map fst (filter (selected (visible W) (wheres q)) (raw_rows W q)))"
  from assms have ns: "ns = group_by_id (take (row_limit q) ?rows)"
    by (simp add: getMany_def split: if_splits)
  have "sorted_wrt (\<lambda>a b. note_id b \<le> note_id a) (take (row_limit q) ?rows)"
    using sorted_sort_desc by (rule sorted_wrt_take)
  then have "sorted_wrt (\<lambda>a b. note_id b \<le> note_id a) ns"
    unfolding ns by (rule sorted_wrt_group_by_id)
  moreover have "distinct (map note_id ns)"
    unfolding ns by (rule distinct_group_by_id)
  ultimately show ?thesis by (rule strictly_desc)
qed

lemma getMany_length:
  assumes "getMany W q = Inr ns"
  shows "length ns \<le> row_limit q"
proof -
  let ?rows = "sort_desc (map fst (filter (selected (visible W) (wheres q)) (raw_rows W q)))"
  from assms have ns: "ns = group_by_id (take (row_limit q) ?rows)"
    by (simp add: getMany_def split: if_splits)
  have "length ns \<le> length (take (row_limit q) ?rows)"
    unfolding ns by (rule length_group_by_id)
  then show ?thesis by simp
qed

lemma getMany_distinct:
  assumes "getMany W q = Inr ns"
  shows "distinct (map note_id ns)"
proof -
  from assms have "ns = group_by_id (take (row_limit q)
      (sort_desc (map fst (filter (selected (visible W) (wheres q)) (raw_rows W q)))))"
    by (simp add: getMany_def split: if_splits)
  then show ?thesis by (simp add: distinct_group_by_id)
qed

lemma getMany_renote_world:
  "getMany (W\<lparr>renote_muting_tbl := t, renoteMutings_fail := f\<rparr>) q = getMany W q"
  by (simp add: getMany_def raw_rows_def)

lemma set_set_to_array: "set (set_to_array xs) = set xs"
  by (simp add: set_to_array_def)

lemma set_to_array_Nil: "set_to_array xs = [] \<longleftrightarrow> xs = []"
  using set_set_to_array [of xs] by (metis set_empty)

subsection \<open>The loop\<close>

lemma set_slice: "set (slice a b xs) \<subseteq> set xs"
  unfolding slice_def by (meson set_take_subset set_drop_subset subset_trans)

lemma slice_take_drop: "slice i (i + k) xs = take k (drop i xs)"
  by (simp add: slice_def)

lemma batch_loop_cong:
  assumes q: "\<And>ids ms. getNotesForUsers W' ids ms ps' me rm = getNotesForUsers W ids ms ps me rm"
    and l: "limit_or_10 ps' = limit_or_10 ps"
  shows "batch_loop W' ps' me rm vm i st = batch_loop W ps me rm vm i st"
  using assms
proof (induction W ps me rm vm i st rule: batch_loop.induct)
  case (1 W ps me rm vm i st)
  show ?case
    using 1
    by (simp add: batch_loop.simps [of W' ps' me rm vm i st] batch_loop.simps [of W ps me rm vm i st]
        Let_def split: sum.splits)
qed

lemma batch_loop_notes:
  assumes "n \<in> set (allNotes (batch_loop W ps me rm vm i st))"
  shows "n \<in> set (allNotes st) \<or>
     (\<exists>b ns. set b \<subseteq> set vm \<and> getNotesForUsers W (map ulm_userId b) b ps me rm = Inr ns
        \<and> n \<in> set ns)"
  using assms
proof (induction W ps me rm vm i st rule: batch_loop.induct)
  case (1 W ps me rm vm i st)
  let ?b = "slice i (i + batchSize) vm"
  let ?r = "getNotesForUsers W (map ulm_userId ?b) ?b ps me rm"
  have sub: "set ?b \<subseteq> set vm" by (rule set_slice)
  show ?case
  proof (cases "i < length vm")
    case False
    with 1(3) show ?thesis by (simp add: batch_loop.simps [of W ps me rm vm i st])
  next
    case True
    show ?thesis
    proof (cases ?r)
      case (Inl e)
      let ?st = "\<lparr>allNotes = allNotes st, issued = issued st @ [(?b, Inl e)]\<rparr>"
      from 1(3) True Inl
      have "n \<in> set (allNotes (batch_loop W ps me rm vm (i + batchSize) ?st))"
        by (simp add: batch_loop.simps [of W ps me rm vm i st])
      from 1(1) [OF True refl refl Inl this] show ?thesis by simp
    next
      case (Inr ns)
      let ?st = "\<lparr>allNotes = allNotes st @ ns, issued = issued st @ [(?b, Inr ns)]\<rparr>"
      show ?thesis
      proof (cases "limit_or_10 ps * 3 \<le> length (allNotes ?st)")
        case stop: True
        with 1(3) True Inr have "n \<in> set (allNotes st @ ns)"
          by (simp add: batch_loop.simps [of W ps me rm vm i st])
        with sub Inr show ?thesis by auto
      next
        case go: False
        with 1(3) True Inr
        have "n \<in> set (allNotes (batch_loop W ps me rm vm (i + batchSize) ?st))"
          by (simp add: batch_loop.simps [of W ps me rm vm i st])
        from 1(2) [OF True refl refl Inr refl go this] sub Inr show ?thesis by auto
      qed
    qed
  qed
qed

subsection \<open>What a note of the optimized path has passed\<close>

lemma getNotesForUsers_selected:
  assumes "getNotesForUsers W ids ms ps me rm = Inr ns" and "n \<in> set ns"
  shows "n \<in> set (note_tbl W) \<and>
     selected (visible W) (wheres (notesForUsersQuery ids ms ps me rm)) (n, None)"
proof -
  let ?q = "notesForUsersQuery ids ms ps me rm"
  from assms have "getMany W ?q = Inr ns"
    by (simp add: getNotesForUsers_def)
  from getMany_member [OF this assms(2)]
  obtain u where u: "(n, u) \<in> set (raw_rows W ?q)" "selected (visible W) (wheres ?q) (n, u)"
    by blast
  have "\<not> joinUlm ?q" by (simp add: notesForUsersQuery_def)
  from raw_rows_plain [OF this u(1)] have "u = None" .
  with u raw_rows_note [OF u(1)] show ?thesis by simp
qed

lemma getNotesForUsers_author:
  assumes "getNotesForUsers W (map ulm_userId b) b ps me rm = Inr ns" and "n \<in> set ns"
  shows "n \<in> set (note_tbl W) \<and> userId n \<in> ulm_userId ` set b"
proof -
  from getNotesForUsers_selected [OF assms]
  have tbl: "n \<in> set (note_tbl W)"
    and "selected (visible W) (wheres (notesForUsersQuery (map ulm_userId b) b ps me rm)) (n, None)"
    by simp_all
  then have "holds (visible W) (In Note_userId (map ulm_userId b)) (n, None) = Some True"
    by (simp add: selected_iff notesForUsersQuery_def)
  with tbl show ?thesis by simp
qed

lemma set_final_slice: "set (slice 0 l (sort_desc ns)) \<subseteq> set ns"
  using set_slice [of 0 l "sort_desc ns"] by (simp add: set_sort_desc)

lemma getRelations_Inr:
  "getRelations W uid = Inr (m, b, r) \<Longrightarrow>
     getMutedUsers W uid = Inr m \<and> getBlockedUsers W uid = Inr b \<and> getRenoteMutedUsers W uid = Inr r"
  by (auto simp: getRelations_def split: sum.splits)

lemma optimized_note:
  assumes "getOptimizedTimeline W list ps me = Inr ns" and "n \<in> set ns"
  shows "\<exists>listMembers muted blocked rm b.
      memberships_find W (list_id list) = Inr listMembers
      \<and> getRelations W me = Inr (muted, blocked, rm)
      \<and> set b \<subseteq> set (validMembers_of muted blocked listMembers)
      \<and> n \<in> set (note_tbl W)
      \<and> selected (visible W)
           (wheres (notesForUsersQuery (map ulm_userId b) b ps me rm)) (n, None)"
proof -
  from assms(1) obtain st where st: "optimizedRun W list ps me = Inr st"
    and ns: "ns = slice 0 (limit_or_10 ps) (sort_desc (allNotes st))"
    by (auto simp: getOptimizedTimeline_def split: sum.splits)
  from assms(2) ns set_final_slice have n: "n \<in> set (allNotes st)"
    by blast
  from st obtain listMembers where lm: "memberships_find W (list_id list) = Inr listMembers"
    by (auto simp: optimizedRun_def split: sum.splits)
  from st lm n have ne: "listMembers \<noteq> []"
    by (auto simp: optimizedRun_def split: if_splits)
  from st lm ne obtain muted blocked rm where rel: "getRelations W me = Inr (muted, blocked, rm)"
    by (auto simp: optimizedRun_def split: sum.splits)
  let ?vm = "validMembers_of muted blocked listMembers"
  from st lm ne rel n have vm: "?vm \<noteq> []"
    by (auto simp: optimizedRun_def Let_def split: if_splits)
  from st lm ne rel vm
  have "st = batch_loop W ps me rm ?vm 0 \<lparr>allNotes = [], issued = []\<rparr>"
    by (simp add: optimizedRun_def Let_def)
  with n batch_loop_notes [of n W ps me rm ?vm 0 "\<lparr>allNotes = [], issued = []\<rparr>"]
  obtain b bs where b: "set b \<subseteq> set ?vm"
      "getNotesForUsers W (map ulm_userId b) b ps me rm = Inr bs" "n \<in> set bs"
    by auto
  from getNotesForUsers_selected [OF b(2,3)] lm rel b(1) show ?thesis by blast
qed

subsection \<open>No note enters the accumulator twice\<close>

lemma keys_disjoint:
  assumes "distinct (map f xs)"
  shows "f ` set (take i xs) \<inter> f ` set (take k (drop i xs)) = {}"
proof -
  have "distinct (map f (take i xs) @ map f (drop i xs))"
    using assms by (simp flip: map_append)
  then have "f ` set (take i xs) \<inter> f ` set (drop i xs) = {}"
    by simp
  moreover have "set (take k (drop i xs)) \<subseteq> set (drop i xs)"
    by (rule set_take_subset)
  ultimately show ?thesis by blast
qed

lemma batch_extends:
  assumes dv: "distinct (map ulm_userId vm)"
    and dt: "distinct (map note_id (note_tbl W))"
    and da: "distinct (map note_id acc)"
    and inv: "\<forall>n\<in>set acc. n \<in> set (note_tbl W) \<and> userId n \<in> ulm_userId ` set (take i vm)"
    and q: "getNotesForUsers W (map ulm_userId (slice i (i + k) vm)) (slice i (i + k) vm) ps me rm
        = Inr ns"
  shows "distinct (map note_id (acc @ ns))"
    and "\<forall>n\<in>set (acc @ ns).
        n \<in> set (note_tbl W) \<and> userId n \<in> ulm_userId ` set (take (i + k) vm)"
proof -
  let ?b = "take k (drop i vm)"
  have new: "n \<in> set (note_tbl W) \<and> userId n \<in> ulm_userId ` set ?b" if "n \<in> set ns" for n
    using getNotesForUsers_author [OF q that] by (simp add: slice_take_drop)
  have dn: "distinct (map note_id ns)"
    using q by (simp add: getNotesForUsers_def getMany_distinct)
  have inj: "inj_on note_id (set (note_tbl W))"
    using dt by (simp add: distinct_map)
  have disj: "ulm_userId ` set (take i vm) \<inter> ulm_userId ` set ?b = {}"
    using dv by (rule keys_disjoint)
  have "note_id x \<noteq> note_id y" if x: "x \<in> set acc" and y: "y \<in> set ns" for x y
  proof
    assume eq: "note_id x = note_id y"
    from x inv have xt: "x \<in> set (note_tbl W)" and xu: "userId x \<in> ulm_userId ` set (take i vm)"
      by auto
    from new [OF y] have yt: "y \<in> set (note_tbl W)" and yu: "userId y \<in> ulm_userId ` set ?b"
      by auto
    from inj eq xt yt have "x = y" by (rule inj_onD)
    with xu yu disj show False by auto
  qed
  then have "note_id ` set acc \<inter> note_id ` set ns = {}"
    by auto
  with da dn show "distinct (map note_id (acc @ ns))"
    by simp
  have tk: "set (take (i + k) vm) = set (take i vm) \<union> set ?b"
    by (simp add: take_add)
  show "\<forall>n\<in>set (acc @ ns).
        n \<in> set (note_tbl W) \<and> userId n \<in> ulm_userId ` set (take (i + k) vm)"
    using inv new unfolding tk by auto
qed

lemma batch_skipped:
  assumes "\<forall>n\<in>set acc. n \<in> set (note_tbl W) \<and> userId n \<in> ulm_userId ` set (take i vm)"
  shows "\<forall>n\<in>set acc. n \<in> set (note_tbl W) \<and> userId n \<in> ulm_userId ` set (take (i + k) vm)"
proof -
  have "set (take i vm) \<subseteq> set (take (i + k) vm)"
    by (rule set_take_subset_set_take) simp
  with assms show ?thesis by blast
qed

lemma batch_loop_distinct:
  assumes "distinct (map ulm_userId vm)"
    and "distinct (map note_id (note_tbl W))"
    and "distinct (map note_id (allNotes st))"
    and "\<forall>n\<in>set (allNotes st).
          n \<in> set (note_tbl W) \<and> userId n \<in> ulm_userId ` set (take i vm)"
  shows "distinct (map note_id (allNotes (batch_loop W ps me rm vm i st)))"
  using assms
proof (induction W ps me rm vm i st rule: batch_loop.induct)
  case (1 W ps me rm vm i st)
  let ?b = "slice i (i + batchSize) vm"
  let ?r = "getNotesForUsers W (map ulm_userId ?b) ?b ps me rm"
  show ?case
  proof (cases "i < length vm")
    case False
    with 1(5) show ?thesis by (simp add: batch_loop.simps [of W ps me rm vm i st])
  next
    case True
    show ?thesis
    proof (cases ?r)
      case (Inl e)
      let ?st = "\<lparr>allNotes = allNotes st, issued = issued st @ [(?b, Inl e)]\<rparr>"
      have "distinct (map note_id (allNotes (batch_loop W ps me rm vm (i + batchSize) ?st)))"
        using 1(3,4,5) batch_skipped [OF 1(6), of batchSize]
        by (intro 1(1) [OF True refl refl Inl]) simp_all
      with True Inl show ?thesis
        by (simp add: batch_loop.simps [of W ps me rm vm i st])
    next
      case (Inr ns)
      let ?st = "\<lparr>allNotes = allNotes st @ ns, issued = issued st @ [(?b, Inr ns)]\<rparr>"
      note ext = batch_extends [OF 1(3,4,5,6) Inr]
      show ?thesis
      proof (cases "limit_or_10 ps * 3 \<le> length (allNotes ?st)")
        case stop: True
        with True Inr ext(1) show ?thesis
          by (simp add: batch_loop.simps [of W ps me rm vm i st])
      next
        case go: False
        have "distinct (map note_id (allNotes (batch_loop W ps me rm vm (i + batchSize) ?st)))"
          using 1(3,4) ext
          by (intro 1(2) [OF True refl refl Inr refl go]) simp_all
        with True Inr go show ?thesis
          by (simp add: batch_loop.simps [of W ps me rm vm i st])
      qed
    qed
  qed
qed

subsection \<open>The partition into batches\<close>








subsection \<open>The log of the loop\<close>






section \<open>The claims\<close>

subsection \<open>C1\<close>

text \<open>
  Claim C1, as amended. When the optimized path returns, the orchestrator returns that
  same sequence, and no note in it is written by a user the caller mutes or blocks,
  whatever the filter flags: muted and blocked members are removed before the batches
  are built, and every batch query is restricted to the authors of its batch. The
  fallback query has no condition on mutes or blocks and is not covered.
\<close>

theorem optimized_excludes_muted_and_blocked:
  assumes "getOptimizedTimeline W list ps me = Inr ns"
  shows "getFromDb W list ps me = Inr ns
     \<and> (\<forall>n\<in>set ns.
          userId n \<notin> muteeId ` {r \<in> set (muting_tbl W). muterId r = me}
        \<and> userId n \<notin> blockeeId ` {r \<in> set (blocking_tbl W). blockerId r = me})"
proof (intro conjI ballI)
  show "getFromDb W list ps me = Inr ns"
    using assms by (simp add: getFromDb_def)
next
  fix n assume n: "n \<in> set ns"
  from optimized_note [OF assms n] obtain listMembers muted blocked rm b where
    rel: "getRelations W me = Inr (muted, blocked, rm)"
    and b: "set b \<subseteq> set (validMembers_of muted blocked listMembers)"
    and sel: "selected (visible W)
           (wheres (notesForUsersQuery (map ulm_userId b) b ps me rm)) (n, None)"
    by blast
  from sel have "holds (visible W) (In Note_userId (map ulm_userId b)) (n, None) = Some True"
    by (simp add: selected_iff notesForUsersQuery_def)
  then have "userId n \<in> ulm_userId ` set b" by simp
  with b have notin: "userId n \<notin> set (muted @ blocked)"
    by (auto simp: validMembers_of_def)
  from getRelations_Inr [OF rel]
  have "muted = map muteeId (filter (\<lambda>r. muterId r = me) (muting_tbl W))"
    and "blocked = map blockeeId (filter (\<lambda>r. blockerId r = me) (blocking_tbl W))"
    by (auto simp: getMutedUsers_def getBlockedUsers_def mutings_find_def blockings_find_def
        split: sum.splits if_splits)
  with notin
  show "userId n \<notin> muteeId ` {r \<in> set (muting_tbl W). muterId r = me}"
    and "userId n \<notin> blockeeId ` {r \<in> set (blocking_tbl W). blockerId r = me}"
    by auto
qed

text \<open>
  The theorem at \<open>mute_world\<close>: the caller mutes B, and the timeline holds A's notes
  only.
\<close>

theorem optimized_excludes_muted_and_blocked_witness:
  "getMutedUsers mute_world ''me'' = Inr [''B'']
   \<and> getFromDb mute_world list1 no_params ''me''
      = Inr [post ''n8'' ''A'', post ''n6'' ''A'', post ''n3'' ''A'', post ''n1'' ''A'']
   \<and> \<not> (\<exists>n\<in>set [post ''n8'' ''A'', post ''n6'' ''A'', post ''n3'' ''A'', post ''n1'' ''A''].
          userId n \<in> muteeId ` {r \<in> set (muting_tbl mute_world). muterId r = ''me''})"
proof -
  have m: "getMutedUsers mute_world ''me'' = Inr [''B'']"
    by code_simp
  have h: "getOptimizedTimeline mute_world list1 no_params ''me''
      = Inr [post ''n8'' ''A'', post ''n6'' ''A'', post ''n3'' ''A'', post ''n1'' ''A'']"
    by code_simp
  from optimized_excludes_muted_and_blocked [OF h] m show ?thesis
    by blast
qed

text \<open>
  Claim C1 as stated, which includes the fallback, fails at \<open>mute_fallback_world\<close>:
  the membership lookup throws, the orchestrator falls back, and the notes of the muted
  member B are returned.
\<close>

theorem muted_author_through_fallback:
  "getMutedUsers mute_fallback_world ''me'' = Inr [''B'']
   \<and> map_sum id (map (\<lambda>n. (note_id n, userId n)))
        (getFromDb mute_fallback_world list1 no_params ''me'')
      = Inr [(''n8'', ''A''), (''n7'', ''B''), (''n6'', ''A''), (''n5'', ''B''), (''n4'', ''A''),
             (''n3'', ''A''), (''n2'', ''B''), (''n1'', ''A'')]"
  by code_simp

subsection \<open>C2\<close>

text \<open>
  Claim C2. What the optimized path returns is strictly descending by id, has no two
  notes with the same id, and is at most \<open>ps.limit ?? 10\<close> long. The two hypotheses
  are the keys of the data model: \<open>note.id\<close> is the primary key, and a list holds a
  user at most once. With them the slices of the member list have disjoint authors, so
  no note is appended to the accumulator twice.
\<close>

theorem optimized_sorted_distinct_bounded:
  assumes "getOptimizedTimeline W list ps me = Inr ns"
    and "distinct (map note_id (note_tbl W))"
    and "distinct (map ulm_userId
           (filter (\<lambda>m. userListId m = list_id list) (user_list_membership W)))"
  shows "sorted_wrt (\<lambda>a b. note_id b < note_id a) ns
     \<and> distinct (map note_id ns)
     \<and> length ns \<le> limit_or_10 ps"
proof -
  from assms(1) obtain st where st: "optimizedRun W list ps me = Inr st"
    and ns: "ns = take (limit_or_10 ps) (sort_desc (allNotes st))"
    by (auto simp: getOptimizedTimeline_def slice_def split: sum.splits)
  have d: "distinct (map note_id (allNotes st))"
  proof (cases "allNotes st = []")
    case True
    then show ?thesis by simp
  next
    case False
    from st obtain listMembers where lm: "memberships_find W (list_id list) = Inr listMembers"
      by (auto simp: optimizedRun_def split: sum.splits)
    from st lm False have ne: "listMembers \<noteq> []"
      by (auto simp: optimizedRun_def split: if_splits)
    from st lm ne obtain muted blocked rm where rel: "getRelations W me = Inr (muted, blocked, rm)"
      by (auto simp: optimizedRun_def split: sum.splits)
    let ?vm = "validMembers_of muted blocked listMembers"
    from st lm ne rel False have vm: "?vm \<noteq> []"
      by (auto simp: optimizedRun_def Let_def split: if_splits)
    from st lm ne rel vm
    have run: "st = batch_loop W ps me rm ?vm 0 \<lparr>allNotes = [], issued = []\<rparr>"
      by (simp add: optimizedRun_def Let_def)
    from lm assms(3) have "distinct (map ulm_userId listMembers)"
      by (auto simp: memberships_find_def split: if_splits)
    then have "distinct (map ulm_userId ?vm)"
      unfolding validMembers_of_def by (rule distinct_map_filter)
    from batch_loop_distinct [OF this assms(2), of "\<lparr>allNotes = [], issued = []\<rparr>" 0 ps me rm]
    show ?thesis unfolding run by simp
  qed
  have "sorted_wrt (\<lambda>a b. note_id b < note_id a) (sort_desc (allNotes st))"
    using sorted_sort_desc d by (intro strictly_desc) (simp_all add: distinct_sort_desc)
  then have s: "sorted_wrt (\<lambda>a b. note_id b < note_id a) ns"
    unfolding ns by (rule sorted_wrt_take)
  have "distinct (take (limit_or_10 ps) (map note_id (sort_desc (allNotes st))))"
    using d by (intro distinct_take) (simp add: distinct_sort_desc)
  then have "distinct (map note_id ns)"
    unfolding ns by (simp add: take_map)
  with s show ?thesis by (simp add: ns)
qed

text \<open>The theorem at \<open>quiet_world\<close>: twenty notes in two batches, the ten newest returned.\<close>

theorem optimized_sorted_distinct_bounded_witness:
  "getOptimizedTimeline quiet_world list1 limit_10 ''me''
     = Inr (map (\<lambda>u. post (''p'' @ u) u) (rev (drop 10 twenty)))
   \<and> sorted_wrt (\<lambda>a b. note_id b < note_id a) (map (\<lambda>u. post (''p'' @ u) u) (rev (drop 10 twenty)))
   \<and> distinct (map note_id (map (\<lambda>u. post (''p'' @ u) u) (rev (drop 10 twenty))))
   \<and> length (map (\<lambda>u. post (''p'' @ u) u) (rev (drop 10 twenty))) \<le> limit_or_10 limit_10"
proof -
  have h: "getOptimizedTimeline quiet_world list1 limit_10 ''me''
     = Inr (map (\<lambda>u. post (''p'' @ u) u) (rev (drop 10 twenty)))"
    by code_simp
  have n: "distinct (map note_id (note_tbl quiet_world))"
    by code_simp
  have m: "distinct (map ulm_userId
      (filter (\<lambda>m. userListId m = list_id list1) (user_list_membership quiet_world)))"
    by code_simp
  from optimized_sorted_distinct_bounded [OF h n m] h show ?thesis
    by (intro conjI) (elim conjE, assumption)+
qed

subsection \<open>C3\<close>



subsection \<open>C4\<close>

text \<open>
  Claim C4. Every note the fallback returns is a row of \<open>note\<close> with no channel, a
  non-suspended author who is a member of the requested list, and visibility
  \<open>public\<close> or \<open>home\<close>; it lies strictly inside the cursor bounds that are set; the
  result is strictly descending by id and at most \<open>ps.limit ?? 10\<close> long; and the
  cursor conditions of the fallback query are those of the batch query.
\<close>

theorem fallback_rows:
  assumes "getFallbackTimeline W list ps me = Inr ns"
  shows "(\<forall>n\<in>set ns.
            n \<in> set (note_tbl W)
          \<and> channelId n = None
          \<and> \<not> user_isSuspended n
          \<and> (\<exists>m\<in>set (user_list_membership W).
                userListId m = list_id list \<and> ulm_userId m = userId n)
          \<and> (visibility n = ''public'' \<or> visibility n = ''home'')
          \<and> visibility n \<noteq> ''followers'' \<and> visibility n \<noteq> ''specified''
          \<and> visibility n \<noteq> ''direct''
          \<and> (truthy (untilId ps) \<longrightarrow> note_id n < the (untilId ps))
          \<and> (truthy (sinceId ps) \<longrightarrow> the (sinceId ps) < note_id n))
       \<and> sorted_wrt (\<lambda>a b. note_id b < note_id a) ns
       \<and> length ns \<le> limit_or_10 ps
       \<and> (Less Note_id c \<in> set (wheres (fallbackQuery list ps))
            \<longleftrightarrow> Less Note_id c \<in> set (wheres (notesForUsersQuery ids ms ps me rm)))
       \<and> (Greater Note_id c \<in> set (wheres (fallbackQuery list ps))
            \<longleftrightarrow> Greater Note_id c \<in> set (wheres (notesForUsersQuery ids ms ps me rm)))"
proof (intro conjI ballI)
  let ?q = "fallbackQuery list ps"
  from assms have gm: "getMany W ?q = Inr ns"
    by (simp add: getFallbackTimeline_def)
  show "sorted_wrt (\<lambda>a b. note_id b < note_id a) ns"
    using gm by (rule getMany_sorted)
  show "length ns \<le> limit_or_10 ps"
    using getMany_length [OF gm] by (simp add: fallbackQuery_def)
  show "Less Note_id c \<in> set (wheres (fallbackQuery list ps))
            \<longleftrightarrow> Less Note_id c \<in> set (wheres (notesForUsersQuery ids ms ps me rm))"
    by (auto simp: fallbackQuery_def notesForUsersQuery_def replyFilter_def Let_def)
  show "Greater Note_id c \<in> set (wheres (fallbackQuery list ps))
            \<longleftrightarrow> Greater Note_id c \<in> set (wheres (notesForUsersQuery ids ms ps me rm))"
    by (auto simp: fallbackQuery_def notesForUsersQuery_def replyFilter_def Let_def)
  fix n assume n: "n \<in> set ns"
  from getMany_member [OF gm n] obtain u where
    u: "(n, u) \<in> set (raw_rows W ?q)" and sel: "selected (visible W) (wheres ?q) (n, u)"
    by blast
  have "joinUlm ?q" by (simp add: fallbackQuery_def)
  from raw_rows_ulm [OF this u] obtain m where
    m: "u = Some m" "m \<in> set (user_list_membership W)" "ulm_userId m = userId n"
    by blast
  show "n \<in> set (note_tbl W)"
    using u by (rule raw_rows_note)
  from sel have c: "holds (visible W) (Eq Ulm_userListId (list_id list)) (n, u) = Some True"
    "holds (visible W) (IsNull Note_channelId) (n, u) = Some True"
    "holds (visible W) UserNotSuspended (n, u) = Some True"
    "holds (visible W) (In Note_visibility [''public'', ''home'']) (n, u) = Some True"
    by (simp_all add: selected_iff fallbackQuery_def)
  from c(2) show "channelId n = None" by simp
  from c(3) show "\<not> user_isSuspended n" by simp
  from c(1) m show "\<exists>m\<in>set (user_list_membership W).
                userListId m = list_id list \<and> ulm_userId m = userId n"
    by auto
  from c(4) show vis: "visibility n = ''public'' \<or> visibility n = ''home''" by simp
  from vis show "visibility n \<noteq> ''followers''" by auto
  from vis show "visibility n \<noteq> ''specified''" by auto
  from vis show "visibility n \<noteq> ''direct''" by auto
  show "truthy (untilId ps) \<longrightarrow> note_id n < the (untilId ps)"
  proof
    assume "truthy (untilId ps)"
    with sel have "holds (visible W) (Less Note_id (the (untilId ps))) (n, u) = Some True"
      by (simp add: selected_iff fallbackQuery_def)
    then show "note_id n < the (untilId ps)" by simp
  qed
  show "truthy (sinceId ps) \<longrightarrow> the (sinceId ps) < note_id n"
  proof
    assume "truthy (sinceId ps)"
    with sel have "holds (visible W) (Greater Note_id (the (sinceId ps))) (n, u) = Some True"
      by (simp add: selected_iff fallbackQuery_def)
    then show "the (sinceId ps) < note_id n" by simp
  qed
qed

text \<open>
  The theorem at \<open>fallback_world\<close>, with both cursors and limit two: of the rows
  inside the bounds, the followers-only note, the channel note, the note of a suspended
  author and the note of a non-member are left out.
\<close>

theorem fallback_rows_witness:
  "getFallbackTimeline fallback_world list1 fallback_params ''me''
     = Inr [home_post, post ''n8'' ''A'']
   \<and> list_all (\<lambda>n. channelId n = None \<and> \<not> user_isSuspended n
         \<and> (visibility n = ''public'' \<or> visibility n = ''home'')
         \<and> note_id n < ''ne'' \<and> ''n6'' < note_id n) [home_post, post ''n8'' ''A'']
   \<and> length [home_post, post ''n8'' ''A''] \<le> limit_or_10 fallback_params"
proof -
  have h: "getFallbackTimeline fallback_world list1 fallback_params ''me''
     = Inr [home_post, post ''n8'' ''A'']"
    by code_simp
  have t: "truthy (untilId fallback_params)" "the (untilId fallback_params) = ''ne''"
    "truthy (sinceId fallback_params)" "the (sinceId fallback_params) = ''n6''"
    by (simp_all add: fallback_params_def no_params_def)
  from fallback_rows [OF h] t
  have "\<forall>n\<in>set [home_post, post ''n8'' ''A''].
      channelId n = None \<and> \<not> user_isSuspended n
      \<and> (visibility n = ''public'' \<or> visibility n = ''home'')
      \<and> note_id n < ''ne'' \<and> ''n6'' < note_id n"
    and "length [home_post, post ''n8'' ''A''] \<le> limit_or_10 fallback_params"
    by metis+
  with h show ?thesis
    unfolding list_all_iff by blast
qed

subsection \<open>C5\<close>

text \<open>
  Claim C5, as amended. With \<open>withRenotes = false\<close> no note returned by the
  optimized path is a renote without text and without attachments. A renote without
  text that has an attachment passes the condition, and the fallback query has no
  condition on renotes.
\<close>

theorem optimized_without_renotes:
  assumes "getOptimizedTimeline W list ps me = Inr ns" and "withRenotes ps = Some False"
  shows "\<forall>n\<in>set ns. \<not> (renoteId n \<noteq> None \<and> note_text n = None \<and> fileIds n = [])"
proof
  fix n assume n: "n \<in> set ns"
  from optimized_note [OF assms(1) n] obtain rm b where
    sel: "selected (visible W)
           (wheres (notesForUsersQuery (map ulm_userId b) b ps me rm)) (n, None)"
    by blast
  with assms(2)
  have "holds (visible W) (Brackets [IsNull Note_renoteId, IsNotNull Note_text, FileIdsNotEmpty])
          (n, None) = Some True"
    by (simp add: selected_iff notesForUsersQuery_def)
  then show "\<not> (renoteId n \<noteq> None \<and> note_text n = None \<and> fileIds n = [])"
    by (auto simp: or3_True)
qed

text \<open>The theorem at \<open>renote_world\<close>: the bare renote is left out.\<close>

theorem optimized_without_renotes_witness:
  "getOptimizedTimeline renote_world list1 (no_params\<lparr>withRenotes := Some False\<rparr>) ''me''
      = Inr [file_renote, post ''r1'' ''A'']
   \<and> \<not> (\<exists>n\<in>set [file_renote, post ''r1'' ''A''].
          renoteId n \<noteq> None \<and> note_text n = None \<and> fileIds n = [])"
proof -
  have h: "getOptimizedTimeline renote_world list1 (no_params\<lparr>withRenotes := Some False\<rparr>) ''me''
      = Inr [file_renote, post ''r1'' ''A'']"
    by code_simp
  have w: "withRenotes (no_params\<lparr>withRenotes := Some False\<rparr>) = Some False"
    by simp
  from optimized_without_renotes [OF h w] h show ?thesis
    by blast
qed

text \<open>
  Claim C5 as stated fails at \<open>renote_world\<close>: with \<open>withRenotes = false\<close> the
  returned \<open>file_renote\<close> has \<open>renoteId\<close> set and \<open>text\<close> null.
\<close>

theorem file_renote_returned:
  "withRenotes (no_params\<lparr>withRenotes := Some False\<rparr>) = Some False
   \<and> getFromDb renote_world list1 (no_params\<lparr>withRenotes := Some False\<rparr>) ''me''
      = Inr [file_renote, post ''r1'' ''A'']
   \<and> renoteId file_renote = Some ''n0'' \<and> note_text file_renote = None"
  by code_simp

subsection \<open>C6\<close>

text \<open>
  Claim C6, as amended. When the optimized path throws, the orchestrator returns what
  the fallback returns. The fallback throws exactly when the execution of its one query
  throws, and then the exception reaches the caller; otherwise the orchestrator returns
  a result.
\<close>

theorem fallback_on_exception:
  assumes "getOptimizedTimeline W list ps me = Inl e"
  shows "getFromDb W list ps me = getFallbackTimeline W list ps me
     \<and> (notes_fail W (fallbackQuery list ps) \<longrightarrow> getFromDb W list ps me = Inl QueryFailed)
     \<and> (\<not> notes_fail W (fallbackQuery list ps) \<longrightarrow> (\<exists>ns. getFromDb W list ps me = Inr ns))"
  using assms by (simp add: getFromDb_def getFallbackTimeline_def getMany_def)

text \<open>
  The theorem at \<open>mute_fallback_world\<close>: the optimized path throws and the fallback
  answers.
\<close>

theorem fallback_on_exception_witness:
  "getOptimizedTimeline mute_fallback_world list1 no_params ''me'' = Inl QueryFailed
   \<and> getFromDb mute_fallback_world list1 no_params ''me''
      = getFallbackTimeline mute_fallback_world list1 no_params ''me''
   \<and> (\<exists>ns. getFromDb mute_fallback_world list1 no_params ''me'' = Inr ns)"
proof -
  have h: "getOptimizedTimeline mute_fallback_world list1 no_params ''me'' = Inl QueryFailed"
    by code_simp
  have n: "\<not> notes_fail mute_fallback_world (fallbackQuery list1 no_params)"
    by (simp add: mute_fallback_world_def mute_world_def reply_world_def empty_world_def)
  from fallback_on_exception [OF h] h n show ?thesis
    by blast
qed

text \<open>
  Claim C6 as stated fails at \<open>down_world\<close>, where every call to the store throws:
  the optimized path throws, the fallback throws, and so does the orchestrator.
\<close>

theorem fallback_raises:
  "getOptimizedTimeline down_world list1 no_params ''me'' = Inl QueryFailed
   \<and> getFallbackTimeline down_world list1 no_params ''me'' = Inl QueryFailed
   \<and> getFromDb down_world list1 no_params ''me'' = Inl QueryFailed"
  by code_simp

subsection \<open>C7\<close>

text \<open>
  Claim C7. When the renote-mute lookup throws, \<open>getRenoteMutedUsers\<close> returns the
  empty list and the optimized path runs as it does on an empty renote-mute table that
  can be read. The mute and block lookups hand their exception on, and once the list has
  members (the lookups are made only then) it leaves the optimized path.
\<close>

theorem relation_lookup_failures:
  "(renoteMutings_fail W \<longrightarrow>
      getRenoteMutedUsers W me = Inr []
    \<and> getOptimizedTimeline W list ps me =
        getOptimizedTimeline (W\<lparr>renote_muting_tbl := [], renoteMutings_fail := False\<rparr>) list ps me)
   \<and> (mutings_fail W \<longrightarrow> getMutedUsers W me = Inl QueryFailed)
   \<and> (blockings_fail W \<longrightarrow> getBlockedUsers W me = Inl QueryFailed)
   \<and> (memberships_find W (list_id list) = Inr listMembers \<and> listMembers \<noteq> []
        \<and> (mutings_fail W \<or> blockings_fail W)
      \<longrightarrow> getOptimizedTimeline W list ps me = Inl QueryFailed)"
proof (intro conjI impI)
  let ?W = "W\<lparr>renote_muting_tbl := [], renoteMutings_fail := False\<rparr>"
  assume f: "renoteMutings_fail W"
  then show r: "getRenoteMutedUsers W me = Inr []"
    by (simp add: getRenoteMutedUsers_def renoteMutings_find_def)
  have r': "getRenoteMutedUsers ?W me = Inr []"
    by (simp add: getRenoteMutedUsers_def renoteMutings_find_def)
  have rel: "getRelations ?W me = getRelations W me"
    by (simp add: getRelations_def r r' getMutedUsers_def getBlockedUsers_def
        mutings_find_def blockings_find_def)
  have "batch_loop ?W ps me rm vm i st = batch_loop W ps me rm vm i st" for rm vm i st
    by (rule batch_loop_cong) (simp_all add: getNotesForUsers_def getMany_renote_world)
  then have "optimizedRun ?W list ps me = optimizedRun W list ps me"
    by (simp add: optimizedRun_def rel memberships_find_def
        cong: sum.case_cong if_cong prod.case_cong)
  then show "getOptimizedTimeline W list ps me = getOptimizedTimeline ?W list ps me"
    by (simp add: getOptimizedTimeline_def)
next
  assume "mutings_fail W"
  then show "getMutedUsers W me = Inl QueryFailed"
    by (simp add: getMutedUsers_def mutings_find_def)
next
  assume "blockings_fail W"
  then show "getBlockedUsers W me = Inl QueryFailed"
    by (simp add: getBlockedUsers_def blockings_find_def)
next
  assume a: "memberships_find W (list_id list) = Inr listMembers \<and> listMembers \<noteq> []
        \<and> (mutings_fail W \<or> blockings_fail W)"
  then have "getRelations W me = Inl QueryFailed"
    by (auto simp: getRelations_def getMutedUsers_def getBlockedUsers_def
        mutings_find_def blockings_find_def split: sum.splits)
  with a show "getOptimizedTimeline W list ps me = Inl QueryFailed"
    by (simp add: getOptimizedTimeline_def optimizedRun_def)
qed

text \<open>
  The theorem at \<open>renote_mute_down_world\<close>, where the timeline is the one of
  \<open>reply_world\<close>, and at \<open>mute_down_world\<close>, where the optimized path throws.
\<close>

theorem relation_lookup_failures_witness:
  "getRenoteMutedUsers renote_mute_down_world ''me'' = Inr []
   \<and> map_sum id (map note_id) (getOptimizedTimeline renote_mute_down_world list1 no_params ''me'')
      = Inr [''n8'', ''n7'', ''n6'', ''n5'', ''n3'', ''n2'', ''n1'']
   \<and> getOptimizedTimeline mute_down_world list1 no_params ''me'' = Inl QueryFailed"
proof -
  have f: "renoteMutings_fail renote_mute_down_world"
    by (simp add: renote_mute_down_world_def)
  have e: "map_sum id (map note_id)
      (getOptimizedTimeline
         (renote_mute_down_world\<lparr>renote_muting_tbl := [], renoteMutings_fail := False\<rparr>)
         list1 no_params ''me'')
      = Inr [''n8'', ''n7'', ''n6'', ''n5'', ''n3'', ''n2'', ''n1'']"
    by code_simp
  have m: "memberships_find mute_down_world (list_id list1) = Inr reply_members"
    by code_simp
  have n: "reply_members \<noteq> []" "mutings_fail mute_down_world"
    by (simp_all add: reply_members_def mute_down_world_def)
  show ?thesis
    using f e m n
      relation_lookup_failures [where W = renote_mute_down_world and me = "''me''"
        and list = list1 and ps = no_params and listMembers = "[]"]
      relation_lookup_failures [where W = mute_down_world and me = "''me''"
        and list = list1 and ps = no_params and listMembers = reply_members]
    by simp
qed

subsection \<open>C8\<close>

text \<open>
  Claim C8. The reply filter of a batch query is true on a row exactly when the note
  is not a reply, or replies to its own author, or replies to the caller, or is written
  by a member of the batch with \<open>withReplies\<close>. When no member of the batch has
  \<open>withReplies\<close> the bracket has the first three members only. The filter is one of
  the conditions of the batch query.
\<close>

theorem reply_filter_admits:
  "(holds vis (replyFilter members me) (n, u) = Some True \<longleftrightarrow>
      replyId n = None \<or> replyUserId n = Some (userId n) \<or> replyUserId n = Some me
      \<or> userId n \<in> ulm_userId ` {m \<in> set members. withReplies m})
   \<and> (filter withReplies members = [] \<longrightarrow>
        replyFilter members me =
          Brackets [IsNull Note_replyId, EqColumn Note_replyUserId Note_userId,
                    Eq Note_replyUserId me])
   \<and> replyFilter members me \<in> set (wheres (notesForUsersQuery userIds members ps me rm))"
proof (intro conjI)
  show "holds vis (replyFilter members me) (n, u) = Some True \<longleftrightarrow>
      replyId n = None \<or> replyUserId n = Some (userId n) \<or> replyUserId n = Some me
      \<or> userId n \<in> ulm_userId ` {m \<in> set members. withReplies m}"
  proof (cases "filter withReplies members = []")
    case True
    then have "{m \<in> set members. withReplies m} = {}"
      by (auto simp: filter_empty_conv)
    with True show ?thesis
      by (auto simp: replyFilter_def set_to_array_def or3_True split: option.splits)
  next
    case False
    then have "set_to_array (map ulm_userId (filter withReplies members)) \<noteq> []"
      by (simp add: set_to_array_Nil)
    then show ?thesis
      by (auto simp: replyFilter_def Let_def set_set_to_array or3_True split: option.splits)
  qed
  show "filter withReplies members = [] \<longrightarrow>
        replyFilter members me =
          Brackets [IsNull Note_replyId, EqColumn Note_replyUserId Note_userId,
                    Eq Note_replyUserId me]"
    by (simp add: replyFilter_def set_to_array_def)
  show "replyFilter members me \<in> set (wheres (notesForUsersQuery userIds members ps me rm))"
    by (simp add: notesForUsersQuery_def)
qed

text \<open>
  The theorem at the two members of \<open>reply_world\<close>: B's reply to A is admitted, A's
  reply to a third user is not, and a batch of A alone has the three-member bracket.
\<close>

theorem reply_filter_admits_witness:
  "holds (\<lambda>me n. True) (replyFilter reply_members ''me'') (reply_to_A, None) = Some True
   \<and> holds (\<lambda>me n. True) (replyFilter reply_members ''me'') (reply_to_X, None) \<noteq> Some True
   \<and> replyFilter [hd reply_members] ''me'' =
       Brackets [IsNull Note_replyId, EqColumn Note_replyUserId Note_userId,
                 Eq Note_replyUserId ''me'']"
proof -
  have a: "userId reply_to_A \<in> ulm_userId ` {m \<in> set reply_members. withReplies m}"
    by (force simp: reply_to_A_def reply_members_def post_def)
  have x: "\<not> (replyId reply_to_X = None \<or> replyUserId reply_to_X = Some (userId reply_to_X)
      \<or> replyUserId reply_to_X = Some ''me''
      \<or> userId reply_to_X \<in> ulm_userId ` {m \<in> set reply_members. withReplies m})"
    by (auto simp: reply_to_X_def reply_members_def post_def)
  have e: "filter withReplies [hd reply_members] = []"
    by (simp add: reply_members_def)
  show ?thesis
    using a x e
      reply_filter_admits [of "\<lambda>me n. True" reply_members "''me''" reply_to_A None]
      reply_filter_admits [of "\<lambda>me n. True" reply_members "''me''" reply_to_X None]
      reply_filter_admits [of "\<lambda>me n. True" "[hd reply_members]" "''me''" reply_to_X None]
    by blast
qed

subsection \<open>C9\<close>

text \<open>
  Claim C9. Changing \<open>includeRenotedMyNotes\<close> and \<open>includeLocalRenotes\<close> changes
  neither the batch query that is built nor what the optimized path returns.
\<close>

theorem unenforced_flags:
  "notesForUsersQuery ids ms (ps\<lparr>includeRenotedMyNotes := a, includeLocalRenotes := b\<rparr>) me rm
     = notesForUsersQuery ids ms ps me rm
   \<and> getOptimizedTimeline W list (ps\<lparr>includeRenotedMyNotes := a, includeLocalRenotes := b\<rparr>) me
     = getOptimizedTimeline W list ps me"
proof
  let ?ps = "ps\<lparr>includeRenotedMyNotes := a, includeLocalRenotes := b\<rparr>"
  show q: "notesForUsersQuery ids ms ?ps me rm = notesForUsersQuery ids ms ps me rm" for ids ms rm
    by (simp add: notesForUsersQuery_def)
  have l: "limit_or_10 ?ps = limit_or_10 ps"
    by (simp add: limit_or_10_def)
  have "batch_loop W ?ps me rm vm i st = batch_loop W ps me rm vm i st" for rm vm i st
    by (rule batch_loop_cong) (simp_all add: getNotesForUsers_def q l)
  then have "optimizedRun W list ?ps me = optimizedRun W list ps me"
    by (simp add: optimizedRun_def cong: sum.case_cong if_cong)
  then show "getOptimizedTimeline W list ?ps me = getOptimizedTimeline W list ps me"
    by (simp add: getOptimizedTimeline_def l cong: sum.case_cong)
qed

text \<open>The theorem at \<open>reply_world\<close>, with both flags set to false.\<close>

theorem unenforced_flags_witness:
  "map_sum id (map note_id)
     (getOptimizedTimeline reply_world list1
        (no_params\<lparr>includeRenotedMyNotes := Some False, includeLocalRenotes := Some False\<rparr>) ''me'')
   = Inr [''n8'', ''n7'', ''n6'', ''n5'', ''n3'', ''n2'', ''n1'']"
proof -
  have h: "map_sum id (map note_id) (getOptimizedTimeline reply_world list1 no_params ''me'')
      = Inr [''n8'', ''n7'', ''n6'', ''n5'', ''n3'', ''n2'', ''n1'']"
    by code_simp
  show ?thesis
    using h unenforced_flags [where ps = no_params and a = "Some False" and b = "Some False"
        and me = "''me''" and W = reply_world and list = list1 and ids = "[]" and ms = "[]"
        and rm = "[]"]
    by simp
qed

subsection \<open>C10\<close>

text \<open>
  Claim C10. An id cursor that is present is the bound, whatever the date on the same
  side. For a list that is found and a request with \<open>untilId\<close> (with \<open>sinceId\<close>),
  the handler is the database path run with that id as \<open>untilId\<close> (as
  \<open>sinceId\<close>), or the fanout service called with it, and a non-empty id is the
  \<open>note.id <\<close> (the \<open>note.id >\<close>) condition of the batch query and of the fallback
  query. The handler's result does not depend on the date beside an id. A date is
  converted by the id service only when the id is absent (and the date is not \<open>0\<close>),
  and every request is served as the request that carries the resolved ids and no dates.
\<close>

theorem cursor_id_wins:
  "cursorId gen (Some i) d = Some i
   \<and> cursorId gen None d = (case d of None \<Rightarrow> None | Some t \<Rightarrow> if t = 0 then None else Some (gen t))
   \<and> handler S W (ps\<lparr>ps_untilId := Some i, ps_untilDate := d\<rparr>) me =
       handler S W (ps\<lparr>ps_untilId := Some i, ps_untilDate := d'\<rparr>) me
   \<and> handler S W (ps\<lparr>ps_sinceId := Some i, ps_sinceDate := d\<rparr>) me =
       handler S W (ps\<lparr>ps_sinceId := Some i, ps_sinceDate := d'\<rparr>) me
   \<and> untilId (dbParams (ps\<lparr>ps_untilId := Some i, ps_untilDate := d\<rparr>)
        (cursorId gen (Some i) d) s l) = Some i
   \<and> sinceId (dbParams (ps\<lparr>ps_sinceId := Some i, ps_sinceDate := d\<rparr>)
        u (cursorId gen (Some i) d) l) = Some i
   \<and> (userLists_findOneBy W (ps_listId ps) me = Inr (Some list) \<and> ps_untilId ps = Some i \<longrightarrow>
        handler S W ps me =
          (if \<not> enableFanoutTimeline S then
             (case getFromDb W list
                     (dbParams ps (Some i)
                        (cursorId (idService_gen S) (ps_sinceId ps) (ps_sinceDate ps))
                        (ps_limit ps)) me of
                Inl e \<Rightarrow> Inl e
              | Inr timeline \<Rightarrow> packMany S timeline me)
           else
             fanout_timeline S
               \<lparr>fa_untilId = Some i,
                fa_sinceId = cursorId (idService_gen S) (ps_sinceId ps) (ps_sinceDate ps),
                fa_limit = ps_limit ps,
                fa_allowPartial = ps_allowPartial ps, fa_me = me,
                fa_useDbFallback = enableFanoutTimelineDbFallback S,
                fa_redisTimelines =
                  (if ps_withFiles ps then [''userListTimelineWithFiles:'' @ list_id list]
                   else [''userListTimeline:'' @ list_id list]),
                fa_alwaysIncludeMyNotes = True,
                fa_excludePureRenotes = (\<not> ps_withRenotes ps),
                fa_dbFallback = (\<lambda>u s l. getFromDb W list (dbParams ps u s l) me)\<rparr>))
   \<and> (userLists_findOneBy W (ps_listId ps) me = Inr (Some list) \<and> ps_sinceId ps = Some i \<longrightarrow>
        handler S W ps me =
          (if \<not> enableFanoutTimeline S then
             (case getFromDb W list
                     (dbParams ps
                        (cursorId (idService_gen S) (ps_untilId ps) (ps_untilDate ps))
                        (Some i) (ps_limit ps)) me of
                Inl e \<Rightarrow> Inl e
              | Inr timeline \<Rightarrow> packMany S timeline me)
           else
             fanout_timeline S
               \<lparr>fa_untilId = cursorId (idService_gen S) (ps_untilId ps) (ps_untilDate ps),
                fa_sinceId = Some i,
                fa_limit = ps_limit ps,
                fa_allowPartial = ps_allowPartial ps, fa_me = me,
                fa_useDbFallback = enableFanoutTimelineDbFallback S,
                fa_redisTimelines =
                  (if ps_withFiles ps then [''userListTimelineWithFiles:'' @ list_id list]
                   else [''userListTimeline:'' @ list_id list]),
                fa_alwaysIncludeMyNotes = True,
                fa_excludePureRenotes = (\<not> ps_withRenotes ps),
                fa_dbFallback = (\<lambda>u s l. getFromDb W list (dbParams ps u s l) me)\<rparr>))
   \<and> (i \<noteq> [] \<longrightarrow>
          Less Note_id i \<in> set (wheres (notesForUsersQuery ids ms (dbParams ps (Some i) s l) me rm))
        \<and> Less Note_id i \<in> set (wheres (fallbackQuery list (dbParams ps (Some i) s l)))
        \<and> Greater Note_id i \<in> set (wheres (notesForUsersQuery ids ms (dbParams ps u (Some i) l) me rm))
        \<and> Greater Note_id i \<in> set (wheres (fallbackQuery list (dbParams ps u (Some i) l))))
   \<and> handler S W ps me =
       handler S W
         (ps\<lparr>ps_untilId := cursorId (idService_gen S) (ps_untilId ps) (ps_untilDate ps),
             ps_untilDate := None,
             ps_sinceId := cursorId (idService_gen S) (ps_sinceId ps) (ps_sinceDate ps),
             ps_sinceDate := None\<rparr>) me"
proof (intro conjI impI)
  show "untilId (dbParams (ps\<lparr>ps_untilId := Some i, ps_untilDate := d\<rparr>)
        (cursorId gen (Some i) d) s l) = Some i"
    by (simp add: cursorId_def dbParams_def)
  show "sinceId (dbParams (ps\<lparr>ps_sinceId := Some i, ps_sinceDate := d\<rparr>)
        u (cursorId gen (Some i) d) l) = Some i"
    by (simp add: cursorId_def dbParams_def)
  show "cursorId gen (Some i) d = Some i"
    by (simp add: cursorId_def)
  show "cursorId gen None d =
      (case d of None \<Rightarrow> None | Some t \<Rightarrow> if t = 0 then None else Some (gen t))"
    by (simp add: cursorId_def split: option.splits)
  show "handler S W (ps\<lparr>ps_untilId := Some i, ps_untilDate := d\<rparr>) me =
       handler S W (ps\<lparr>ps_untilId := Some i, ps_untilDate := d'\<rparr>) me"
    by (simp add: cursorId_def handler_def dbParams_def Let_def
          cong: sum.case_cong option.case_cong if_cong)
  show "handler S W (ps\<lparr>ps_sinceId := Some i, ps_sinceDate := d\<rparr>) me =
       handler S W (ps\<lparr>ps_sinceId := Some i, ps_sinceDate := d'\<rparr>) me"
    by (simp add: cursorId_def handler_def dbParams_def Let_def
          cong: sum.case_cong option.case_cong if_cong)
next
  assume a: "userLists_findOneBy W (ps_listId ps) me = Inr (Some list) \<and> ps_untilId ps = Some i"
  have c: "cursorId g (Some x) t = Some x" for g x t
    by (simp add: cursorId_def)
  from a show "handler S W ps me =
          (if \<not> enableFanoutTimeline S then
             (case getFromDb W list
                     (dbParams ps (Some i)
                        (cursorId (idService_gen S) (ps_sinceId ps) (ps_sinceDate ps))
                        (ps_limit ps)) me of
                Inl e \<Rightarrow> Inl e
              | Inr timeline \<Rightarrow> packMany S timeline me)
           else
             fanout_timeline S
               \<lparr>fa_untilId = Some i,
                fa_sinceId = cursorId (idService_gen S) (ps_sinceId ps) (ps_sinceDate ps),
                fa_limit = ps_limit ps,
                fa_allowPartial = ps_allowPartial ps, fa_me = me,
                fa_useDbFallback = enableFanoutTimelineDbFallback S,
                fa_redisTimelines =
                  (if ps_withFiles ps then [''userListTimelineWithFiles:'' @ list_id list]
                   else [''userListTimeline:'' @ list_id list]),
                fa_alwaysIncludeMyNotes = True,
                fa_excludePureRenotes = (\<not> ps_withRenotes ps),
                fa_dbFallback = (\<lambda>u s l. getFromDb W list (dbParams ps u s l) me)\<rparr>)"
    by (simp add: handler_def Let_def c)
next
  assume a: "userLists_findOneBy W (ps_listId ps) me = Inr (Some list) \<and> ps_sinceId ps = Some i"
  have c: "cursorId g (Some x) t = Some x" for g x t
    by (simp add: cursorId_def)
  from a show "handler S W ps me =
          (if \<not> enableFanoutTimeline S then
             (case getFromDb W list
                     (dbParams ps
                        (cursorId (idService_gen S) (ps_untilId ps) (ps_untilDate ps))
                        (Some i) (ps_limit ps)) me of
                Inl e \<Rightarrow> Inl e
              | Inr timeline \<Rightarrow> packMany S timeline me)
           else
             fanout_timeline S
               \<lparr>fa_untilId = cursorId (idService_gen S) (ps_untilId ps) (ps_untilDate ps),
                fa_sinceId = Some i,
                fa_limit = ps_limit ps,
                fa_allowPartial = ps_allowPartial ps, fa_me = me,
                fa_useDbFallback = enableFanoutTimelineDbFallback S,
                fa_redisTimelines =
                  (if ps_withFiles ps then [''userListTimelineWithFiles:'' @ list_id list]
                   else [''userListTimeline:'' @ list_id list]),
                fa_alwaysIncludeMyNotes = True,
                fa_excludePureRenotes = (\<not> ps_withRenotes ps),
                fa_dbFallback = (\<lambda>u s l. getFromDb W list (dbParams ps u s l) me)\<rparr>)"
    by (simp add: handler_def Let_def c)
next
  assume i: "i \<noteq> []"
  then show "Less Note_id i \<in> set (wheres (notesForUsersQuery ids ms (dbParams ps (Some i) s l) me rm))"
    by (simp add: notesForUsersQuery_def dbParams_def)
  from i show "Less Note_id i \<in> set (wheres (fallbackQuery list (dbParams ps (Some i) s l)))"
    by (simp add: fallbackQuery_def dbParams_def)
  from i show "Greater Note_id i \<in> set (wheres (notesForUsersQuery ids ms (dbParams ps u (Some i) l) me rm))"
    by (simp add: notesForUsersQuery_def dbParams_def)
  from i show "Greater Note_id i \<in> set (wheres (fallbackQuery list (dbParams ps u (Some i) l)))"
    by (simp add: fallbackQuery_def dbParams_def)
next
  have u: "cursorId g (cursorId g a b) None = cursorId g a b" for g a b
    by (simp add: cursorId_def split: option.splits)
  show "handler S W ps me =
       handler S W
         (ps\<lparr>ps_untilId := cursorId (idService_gen S) (ps_untilId ps) (ps_untilDate ps),
             ps_untilDate := None,
             ps_sinceId := cursorId (idService_gen S) (ps_sinceId ps) (ps_sinceDate ps),
             ps_sinceDate := None\<rparr>) me"
    by (simp add: handler_def dbParams_def Let_def u
          cong: sum.case_cong option.case_cong if_cong)
qed

text \<open>
  The theorem at \<open>reply_world\<close> and \<open>both_cursors\<close>, on the database path for
  \<open>untilId\<close> and through the fanout service for \<open>sinceId\<close>: the page is the notes
  between \<open>n2\<close> and \<open>n6\<close>, where the dates would have given \<open>n3\<close> on either side.
\<close>

theorem cursor_id_wins_witness:
  "handler id_services reply_world both_cursors ''me'' = Inr [''n5'', ''n3'']
   \<and> handler fanout_services reply_world both_cursors ''me'' = Inr [''n5'', ''n3'']
   \<and> cursorId (idService_gen id_services) None (ps_untilDate both_cursors) = Some ''n3''
   \<and> cursorId (idService_gen id_services) None (ps_sinceDate both_cursors) = Some ''n3''"
proof (intro conjI)
  have until: "userLists_findOneBy reply_world (ps_listId both_cursors) ''me'' = Inr (Some list1)
      \<and> ps_untilId both_cursors = Some ''n6''"
    by code_simp
  have since: "userLists_findOneBy reply_world (ps_listId both_cursors) ''me'' = Inr (Some list1)
      \<and> ps_sinceId both_cursors = Some ''n2''"
    by code_simp
  have off: "\<not> enableFanoutTimeline id_services"
    by (simp add: id_services_def)
  have on: "\<not> \<not> enableFanoutTimeline fanout_services"
    by (simp add: fanout_services_def)
  have db: "(case getFromDb reply_world list1
                 (dbParams both_cursors (Some ''n6'')
                    (cursorId (idService_gen id_services) (ps_sinceId both_cursors)
                       (ps_sinceDate both_cursors))
                    (ps_limit both_cursors)) ''me'' of
              Inl e \<Rightarrow> Inl e
            | Inr timeline \<Rightarrow> packMany id_services timeline ''me'')
      = Inr [''n5'', ''n3'']"
    by code_simp
  have fan: "fanout_timeline fanout_services
       \<lparr>fa_untilId = cursorId (idService_gen fanout_services) (ps_untilId both_cursors)
                       (ps_untilDate both_cursors),
        fa_sinceId = Some ''n2'',
        fa_limit = ps_limit both_cursors,
        fa_allowPartial = ps_allowPartial both_cursors, fa_me = ''me'',
        fa_useDbFallback = enableFanoutTimelineDbFallback fanout_services,
        fa_redisTimelines =
          (if ps_withFiles both_cursors then [''userListTimelineWithFiles:'' @ list_id list1]
           else [''userListTimeline:'' @ list_id list1]),
        fa_alwaysIncludeMyNotes = True,
        fa_excludePureRenotes = (\<not> ps_withRenotes both_cursors),
        fa_dbFallback =
          (\<lambda>u s l. getFromDb reply_world list1 (dbParams both_cursors u s l) ''me'')\<rparr>
      = Inr [''n5'', ''n3'']"
    by code_simp
  note t = cursor_id_wins [where S = id_services and W = reply_world and ps = both_cursors
      and me = "''me''" and list = list1 and i = "''n6''"]
  note t' = cursor_id_wins [where S = fanout_services and W = reply_world and ps = both_cursors
      and me = "''me''" and list = list1 and i = "''n2''"]
  note handed_until = t [THEN conjunct2, THEN conjunct2, THEN conjunct2, THEN conjunct2,
      THEN conjunct2, THEN conjunct2, THEN conjunct1, THEN mp, OF until]
  note handed_since = t' [THEN conjunct2, THEN conjunct2, THEN conjunct2, THEN conjunct2,
      THEN conjunct2, THEN conjunct2, THEN conjunct2, THEN conjunct1, THEN mp, OF since]
  from handed_until show "handler id_services reply_world both_cursors ''me'' = Inr [''n5'', ''n3'']"
    unfolding if_P [OF off] db .
  from handed_since show "handler fanout_services reply_world both_cursors ''me'' = Inr [''n5'', ''n3'']"
    unfolding if_not_P [OF on] fan .
  show "cursorId (idService_gen id_services) None (ps_untilDate both_cursors) = Some ''n3''"
    by code_simp
  show "cursorId (idService_gen id_services) None (ps_sinceDate both_cursors) = Some ''n3''"
    by code_simp
qed

end
